theory Spec2Isabelle
  imports Main
begin

section \<open>JavaScript values\<close>

text \<open>
  A value that may be \<open>null\<close> or \<open>undefined\<close>, the state of a promise, and the
  completion of a synchronous call (a normal return or a thrown error, with its message).
\<close>

datatype 'a nullable = JSNull | JSUndefined | JSValue 'a

datatype 'a promise = Pending | Fulfilled 'a | Rejected string

datatype 'a completion = Returns 'a | Throws string

definition rejects :: "'a promise \<Rightarrow> bool" where
  "rejects p = (case p of Rejected _ \<Rightarrow> True | _ \<Rightarrow> False)"

definition throws :: "'a completion \<Rightarrow> bool" where
  "throws c = (case c of Throws _ \<Rightarrow> True | _ \<Rightarrow> False)"


section \<open>NullBlobStorageService (src/unnamed/part_003)\<close>

text \<open>
  The class has no fields, so each method is a function of its arguments alone. The types
  of \<open>@prague/container-definitions\<close> (IVersion, ISnapshotTree, ITree, ISummaryCommit,
  ISummaryPackfileHandle, ICreateBlobResponse) and Buffer are type parameters.
  \<open>write'\<close> is the method \<open>write\<close> (a reserved word here).
  An \<open>async\<close> method that returns a value gives a promise fulfilled with it; one
  that returns \<open>Promise.reject(m)\<close> gives a promise rejected with \<open>m\<close>.
\<close>

definition repositoryUrl :: "string completion" where
  "repositoryUrl = Throws ''Invalid operation''"

definition getSnapshotTree :: "'version option \<Rightarrow> 'tree nullable promise" where
  "getSnapshotTree version = Fulfilled JSNull"

definition getVersions :: "string \<Rightarrow> int \<Rightarrow> 'version list promise" where
  "getVersions versionId count = Fulfilled []"

definition read :: "string \<Rightarrow> string nullable promise" where
  "read blobId = Rejected ''Invalid operation''"

definition getContent :: "'version \<Rightarrow> string \<Rightarrow> string nullable promise" where
  "getContent version path = Fulfilled JSUndefined"

definition write' :: "'tree \<Rightarrow> string list \<Rightarrow> string \<Rightarrow> string \<Rightarrow> 'version promise" where
  "write' tree parents message ref = Rejected ''Null blob storage can not write commit''"

definition uploadSummary :: "'commit \<Rightarrow> 'handle promise" where
  "uploadSummary commit = Rejected ''Invalid operation''"

definition downloadSummary :: "'handle \<Rightarrow> 'commit promise" where
  "downloadSummary handle = Rejected ''Invalid operation''"

definition createBlob :: "'buffer \<Rightarrow> 'response promise" where
  "createBlob file = Rejected ''Null blob storage can not create blob''"

definition getRawUrl :: "string \<Rightarrow> string nullable completion" where
  "getRawUrl blobId = Throws ''Invalid operation''"


section \<open>Workers, assignments and the State Manager\<close>

text \<open>
  The State Manager and the types of its messages are code of the repository that is not
  among the sources (\<open>./stateManager\<close>, \<open>./messages\<close>, \<open>../socket-storage\<close>); what
  \<open>baseForeman.ts\<close> uses of them is modelled from the spec, one definition at a time.
\<close>

text \<open>
  Modelled from the spec: the kind of a Worker, "one of {server, client}"; the type
  declaration is missing.
\<close>

datatype WorkerKind = Server | Client

text \<open>
  Modelled from the spec: the interface IWorker of \<open>../socket-storage\<close>, which is
  missing. The code reads its \<open>clientId\<close>; the spec's Worker has a \<open>kind\<close>.
\<close>

record IWorker =
  clientId :: string
  kind :: WorkerKind

text \<open>
  Modelled from the spec: the interface IWorkerDetail of \<open>./messages\<close>, which is
  missing. The code reads \<open>worker.worker\<close> and \<open>worker.socket\<close>; the socket is the
  spec's transport handle, named by a number here, and \<open>connectedAt\<close> is the spec's time
  of registration.
\<close>

record IWorkerDetail =
  worker :: IWorker
  socket :: nat
  connectedAt :: int

text \<open>
  Modelled from the spec: the key of an Assignment, "(tenantId, documentId, taskType)";
  the type declaration is missing.
\<close>

type_synonym AssignmentKey = "string \<times> string \<times> string"

text \<open>
  Modelled from the spec: the Assignment of the spec's data model, whose declaration is
  missing. \<open>owner\<close> is the spec's field \<open>worker\<close>, the worker holding the task.
\<close>

record Assignment =
  key :: AssignmentKey
  owner :: IWorkerDetail
  assignedAt :: int
  lastActivityAt :: int

text \<open>
  Modelled from the spec: one (taskType, worker) pair of an expired document, whose
  declaration is missing, with the field names \<open>revokeExpiredWork\<close> reads:
  \<open>worker.workType\<close> and \<open>worker.detail\<close>.
\<close>

record IWork =
  workType :: string
  detail :: IWorkerDetail

text \<open>
  Modelled from the spec: one element of what \<open>getExpiredDocuments\<close> returns,
  "{tenantId, documentId, assignments: [(taskType, worker)]}", whose declaration is
  missing, with the field names \<open>revokeExpiredWork\<close> reads: \<open>doc.tenantId\<close>,
  \<open>doc.documentId\<close> and \<open>doc.workers\<close>.
\<close>

record IDocumentWork =
  tenantId :: string
  documentId :: string
  workers :: "IWork list"

text \<open>
  Modelled from the spec: the class StateManager of \<open>./stateManager\<close>, which is missing.
  It owns the Worker Registry and the Assignment Table and keeps the two timeouts and the
  task types it was built from.
\<close>

record StateManager =
  workerTimeout :: int
  documentTimeout :: int
  taskTypes :: "string list"
  registry :: "IWorkerDetail list"
  assignments :: "Assignment list"

text \<open>
  Modelled from the spec: the error taxonomy of the spec, which has no declaration among
  the sources.
\<close>

datatype Error = AlreadyAssigned | NotAssigned | AckTimeout | NegativeAck

text \<open>
  Modelled from the spec: the constructor of StateManager, which is missing; the
  Foreman calls it with the worker timeout, the document timeout and the tasks. A new
  State Manager has no worker and no Assignment.
\<close>

definition newStateManager :: "int \<Rightarrow> int \<Rightarrow> string list \<Rightarrow> StateManager" where
  "newStateManager wt dt ts =
     \<lparr>workerTimeout = wt, documentTimeout = dt, taskTypes = ts, registry = [], assignments = []\<rparr>"

text \<open>
  Modelled from the spec: \<open>registerWorker(detail)\<close> of the State Manager, which is
  missing: "Inserts or replaces the Worker entry for detail.clientId. Idempotent."
\<close>

definition registerWorker :: "IWorkerDetail \<Rightarrow> StateManager \<Rightarrow> StateManager" where
  "registerWorker d m =
     m\<lparr>registry :=
         filter (\<lambda>w. clientId (worker w) \<noteq> clientId (worker d)) (registry m) @ [d]\<rparr>"

text \<open>
  Modelled from the spec: \<open>bindAssignment(tenantId, documentId, taskType, workerDetail)\<close>
  of the State Manager, which is missing: "Fails with AlreadyAssigned if a live
  Assignment exists for that key and is held by a different worker; otherwise
  creates/refreshes the Assignment and sets lastActivityAt = now." The clock is the first
  argument; a worker is identified by its clientId.
\<close>

definition bindAssignment ::
  "int \<Rightarrow> string \<Rightarrow> string \<Rightarrow> string \<Rightarrow> IWorkerDetail \<Rightarrow> StateManager \<Rightarrow> Error + StateManager" where
  "bindAssignment now tid did tt wd m =
     (case find (\<lambda>a. key a = (tid, did, tt)) (assignments m) of
        Some a \<Rightarrow>
          if clientId (worker (owner a)) \<noteq> clientId (worker wd) then Inl AlreadyAssigned
          else Inr (m\<lparr>assignments :=
                 map (\<lambda>b. if key b = (tid, did, tt) then b\<lparr>lastActivityAt := now\<rparr> else b)
                   (assignments m)\<rparr>)
      | None \<Rightarrow>
          Inr (m\<lparr>assignments := assignments m @
                 [\<lparr>key = (tid, did, tt), owner = wd, assignedAt = now, lastActivityAt = now\<rparr>]\<rparr>))"

text \<open>
  Modelled from the spec: \<open>removeAssignment(tenantId, documentId, taskType)\<close> of the State
  Manager, which is missing: "Returns whether an Assignment existed and was removed."
\<close>

definition removeAssignment ::
  "string \<Rightarrow> string \<Rightarrow> string \<Rightarrow> StateManager \<Rightarrow> bool \<times> StateManager" where
  "removeAssignment tid did tt m =
     (list_ex (\<lambda>a. key a = (tid, did, tt)) (assignments m),
      m\<lparr>assignments := filter (\<lambda>a. key a \<noteq> (tid, did, tt)) (assignments m)\<rparr>)"

text \<open>
  Modelled from the spec: \<open>manager.revokeWork(worker, tenantId, documentId, workType)\<close>
  of the State Manager, which is missing; \<open>revokeOne\<close> calls it on a positive
  acknowledgment. The spec describes that call as \<open>removeAssignment\<close> ("On positive
  acknowledgment: Foreman calls removeAssignment"); the caller drops what it returns.
\<close>

definition revokeWork ::
  "IWorkerDetail \<Rightarrow> string \<Rightarrow> string \<Rightarrow> string \<Rightarrow> StateManager \<Rightarrow> StateManager" where
  "revokeWork wd tid did wt m = snd (removeAssignment tid did wt m)"

text \<open>
  Modelled from the spec: when an Assignment is expired, a part of the missing
  \<open>getExpiredDocuments\<close>: "An Assignment is expired when now - lastActivityAt >
  documentTimeout". The spec's Worker has no heartbeat field, so the worker-level signal
  is not tracked and (in the spec's words) the document-level timeout suffices.
\<close>

definition expired :: "StateManager \<Rightarrow> int \<Rightarrow> Assignment \<Rightarrow> bool" where
  "expired m now a = (now - lastActivityAt a > documentTimeout m)"

text \<open>
  Modelled from the spec: the document of an Assignment, a part of the missing
  \<open>getExpiredDocuments\<close>: a document is "the set of Assignments sharing (tenantId,
  documentId)".
\<close>

definition docOf :: "Assignment \<Rightarrow> string \<times> string" where
  "docOf a = (fst (key a), fst (snd (key a)))"

text \<open>
  Modelled from the spec: \<open>getExpiredDocuments(now)\<close> of the State Manager, which is
  missing: the documents "whose any assignment has expired", each with "the full list of
  its current (taskType, worker) pairs".
\<close>

definition getExpiredDocuments :: "StateManager \<Rightarrow> int \<Rightarrow> IDocumentWork list" where
  "getExpiredDocuments m now =
     map (\<lambda>d. \<lparr>tenantId = fst d, documentId = snd d,
               workers = map (\<lambda>a. \<lparr>workType = snd (snd (key a)), detail = owner a\<rparr>)
                           (filter (\<lambda>a. docOf a = d) (assignments m))\<rparr>)
       (remdups (map docOf (filter (expired m now) (assignments m))))"

text \<open>
  Modelled from the spec: \<open>getActiveWorkers(kind)\<close> of the State Manager, which is
  missing: "Returns all registered workers of the requested kind".
\<close>

definition getActiveWorkers :: "WorkerKind \<Rightarrow> StateManager \<Rightarrow> IWorkerDetail list" where
  "getActiveWorkers k m = filter (\<lambda>w. kind (worker w) = k) (registry m)"

text \<open>
  Modelled from the spec: \<open>getActiveServerWorkers()\<close> of the State Manager, which is
  missing: the code's name for the spec's \<open>getActiveWorkers\<close> at the kind server.
\<close>

definition getActiveServerWorkers :: "StateManager \<Rightarrow> IWorkerDetail list" where
  "getActiveServerWorkers m = getActiveWorkers Server m"

text \<open>
  Modelled from the spec: \<open>getActiveClientWorkers()\<close> of the State Manager, which is
  missing: the code's name for the spec's \<open>getActiveWorkers\<close> at the kind client.
\<close>

definition getActiveClientWorkers :: "StateManager \<Rightarrow> IWorkerDetail list" where
  "getActiveClientWorkers m = getActiveWorkers Client m"


section \<open>BaseForeman (src/routerlicious/src/tmz/baseForeman.ts)\<close>

text \<open>
  The configuration the constructor reads with \<open>nconf.get\<close> (the keys
  \<open>tmz:timeoutMSec:worker\<close>, \<open>tmz:timeoutMSec:document\<close>, \<open>tmz:tasks\<close> and
  \<open>tmz:workerAckTimeMSec\<close>), the two fields of the class, and its constructor.
\<close>

record nconf =
  tmz_timeoutMSec_worker :: int
  tmz_timeoutMSec_document :: int
  tmz_tasks :: "string list"
  tmz_workerAckTimeMSec :: int

record BaseForeman =
  manager :: StateManager
  ackTimeout :: int

definition newBaseForeman :: "nconf \<Rightarrow> BaseForeman" where
  "newBaseForeman c =
     \<lparr>manager = newStateManager (tmz_timeoutMSec_worker c) (tmz_timeoutMSec_document c) (tmz_tasks c),
      ackTimeout = tmz_workerAckTimeMSec c\<rparr>"

text \<open>
  The acknowledgment callbacks are closures; each is represented by what it captured.
  \<open>RevokeAck p worker tenantId documentId workType\<close> is the callback of \<open>revokeOne\<close>,
  which holds the \<open>resolve\<close> of promise \<open>p\<close>; \<open>AgentAck worker moduleName\<close> is the
  callback of \<open>broadcastNewAgentModule\<close>.
\<close>

datatype Callback =
    RevokeAck nat IWorkerDetail string string string
  | AgentAck IWorkerDetail string

text \<open>
  One call of \<open>socket.emit(event, ...args, callback)\<close>: the socket it was called on, the
  event name, the arguments and the callback.
\<close>

record Emit =
  target :: nat
  event :: string
  args :: "string list"
  callback :: Callback

text \<open>
  The levels of winston a log line can have; the class calls \<open>winston.error\<close> and
  \<open>winston.info\<close> only.
\<close>

datatype LogLevel = LevelError | LevelWarn | LevelInfo

text \<open>
  Everything the methods read and write: the Foreman object, the clock, the calls of
  \<open>emit\<close> so far (oldest first), the promises created so far (a promise is named by its
  position) and the lines written through winston.
\<close>

record World =
  foreman :: BaseForeman
  clock :: int
  emitted :: "Emit list"
  promises :: "unit promise list"
  winston :: "(LogLevel \<times> string) list"

text \<open>The world at time \<open>t\<close>, right after \<open>new BaseForeman()\<close>.\<close>

definition newWorld :: "nconf \<Rightarrow> int \<Rightarrow> World" where
  "newWorld c t = \<lparr>foreman = newBaseForeman c, clock = t, emitted = [], promises = [], winston = []\<rparr>"

text \<open>\<open>getManager()\<close>: what it returns, and the world it leaves.\<close>

definition getManager :: "World \<Rightarrow> StateManager \<times> World" where
  "getManager w = (manager (foreman w), w)"

text \<open>\<open>winston.error(msg)\<close> and \<open>winston.info(msg)\<close> append a line to the log.\<close>

definition winston_error :: "string \<Rightarrow> World \<Rightarrow> World" where
  "winston_error msg w = w\<lparr>winston := winston w @ [(LevelError, msg)]\<rparr>"

definition winston_info :: "string \<Rightarrow> World \<Rightarrow> World" where
  "winston_info msg w = w\<lparr>winston := winston w @ [(LevelInfo, msg)]\<rparr>"

text \<open>\<open>resolve()\<close> of promise \<open>p\<close>: a pending promise is fulfilled, a settled one stays.\<close>

definition resolve :: "nat \<Rightarrow> World \<Rightarrow> World" where
  "resolve p w =
     (if p < length (promises w) \<and> promises w ! p = Pending
      then w\<lparr>promises := (promises w)[p := Fulfilled ()]\<rparr> else w)"

text \<open>
  \<open>revokeOne\<close>: the executor of the new promise runs at once and emits "RevokeObject" on
  the worker's socket (\<open>revokeMessage\<close> is that call of \<open>emit\<close>). The promise is
  returned pending.
\<close>

definition revokeMessage ::
  "nat \<Rightarrow> string \<Rightarrow> string \<Rightarrow> string \<Rightarrow> IWorkerDetail \<Rightarrow> Emit" where
  "revokeMessage p tid did wt wd =
     \<lparr>target = socket wd, event = ''RevokeObject'',
      args = [clientId (worker wd), tid, did, wt],
      callback = RevokeAck p wd tid did wt\<rparr>"

definition revokeOne ::
  "string \<Rightarrow> string \<Rightarrow> string \<Rightarrow> IWorkerDetail \<Rightarrow> World \<Rightarrow> nat \<times> World" where
  "revokeOne tid did wt wd w =
     (let p = length (promises w) in
      (p, w\<lparr>promises := promises w @ [Pending],
            emitted := emitted w @ [revokeMessage p tid did wt wd]\<rparr>))"

text \<open>The inner loop of \<open>revokeExpiredWork\<close>: \<open>for (let worker of doc.workers)\<close>.\<close>

fun revokeWorkers :: "IDocumentWork \<Rightarrow> IWork list \<Rightarrow> nat list \<times> World \<Rightarrow> nat list \<times> World" where
  "revokeWorkers doc [] acc = acc"
| "revokeWorkers doc (wk # wks) (revokedPromises, w) =
     (let (p, w') = revokeOne (tenantId doc) (documentId doc) (workType wk) (detail wk) w
      in revokeWorkers doc wks (revokedPromises @ [p], w'))"

text \<open>The outer loop: \<open>for (let doc of docs)\<close>.\<close>

fun revokeDocs :: "IDocumentWork list \<Rightarrow> nat list \<times> World \<Rightarrow> nat list \<times> World" where
  "revokeDocs [] acc = acc"
| "revokeDocs (doc # docs) acc = revokeDocs docs (revokeWorkers doc (workers doc) acc)"

text \<open>
  \<open>revokeExpiredWork()\<close> returns the array of promises. The code calls
  \<open>getExpiredDocuments()\<close> without an argument; the time it compares with is the clock
  of the world.
\<close>

definition revokeExpiredWork :: "World \<Rightarrow> nat list \<times> World" where
  "revokeExpiredWork w =
     (let docs = getExpiredDocuments (manager (foreman w)) (clock w)
      in revokeDocs docs ([], w))"

text \<open>
  The loop of \<open>broadcastNewAgentModule\<close>: \<open>for (const worker of workers)\<close>, each
  turn one call of \<open>emit\<close> (\<open>agentMessage\<close>).
\<close>

definition agentMessage :: "string \<Rightarrow> string \<Rightarrow> IWorkerDetail \<Rightarrow> Emit" where
  "agentMessage moduleName action wd =
     \<lparr>target = socket wd, event = ''AgentObject'',
      args = [clientId (worker wd), moduleName, action],
      callback = AgentAck wd moduleName\<rparr>"

fun broadcastTo :: "string \<Rightarrow> string \<Rightarrow> IWorkerDetail list \<Rightarrow> World \<Rightarrow> World" where
  "broadcastTo moduleName action [] w = w"
| "broadcastTo moduleName action (wd # wds) w =
     broadcastTo moduleName action wds
       (w\<lparr>emitted := emitted w @ [agentMessage moduleName action wd]\<rparr>)"

text \<open>
  \<open>broadcastNewAgentModule(moduleName, workerType, action)\<close>: the workers are chosen
  by \<open>workerType === "server"\<close>.
\<close>

definition broadcastNewAgentModule :: "string \<Rightarrow> string \<Rightarrow> string \<Rightarrow> World \<Rightarrow> World" where
  "broadcastNewAgentModule moduleName workerType action w =
     (let ws = (if workerType = ''server'' then getActiveServerWorkers (manager (foreman w))
                else getActiveClientWorkers (manager (foreman w)))
      in broadcastTo moduleName action ws w)"

text \<open>
  The body of an acknowledgment callback, called with \<open>(error, ack)\<close>. \<open>ack\<close> is an
  IWorker object (truthy) or absent (\<open>undefined\<close> or \<open>null\<close>, falsy). The callback
  of \<open>revokeOne\<close> calls \<open>revokeWork\<close> and then \<open>resolve\<close> when \<open>ack\<close> is truthy and
  \<open>winston.error(error)\<close> otherwise; it never calls \<open>reject\<close>. The callback of
  \<open>broadcastNewAgentModule\<close> calls \<open>winston.info\<close> in both branches.
\<close>

fun runCallback :: "Callback \<Rightarrow> string \<Rightarrow> IWorker option \<Rightarrow> World \<Rightarrow> World" where
  "runCallback (RevokeAck p wd tid did wt) err ack w =
     (case ack of
        Some _ \<Rightarrow>
          resolve p (w\<lparr>foreman := (foreman w)\<lparr>manager := revokeWork wd tid did wt (manager (foreman w))\<rparr>\<rparr>)
      | None \<Rightarrow> winston_error err w)"
| "runCallback (AgentAck wd moduleName) nack ack w =
     (case ack of
        Some _ \<Rightarrow> winston_info (clientId (worker wd) @ '' is ready to load '' @ moduleName) w
      | None \<Rightarrow> winston_info nack w)"

text \<open>
  What can happen to a Foreman: a caller invokes one of its three public methods, the
  transport calls the acknowledgment callback of the \<open>i\<close>-th emitted message with
  \<open>(error, ack)\<close> (a callback that was never registered cannot be called), or time
  passes. The class sets no timer (it never calls \<open>setTimeout\<close>, and \<open>ackTimeout\<close> is
  only assigned), so when time passes only the clock moves. \<open>run\<close> lets a list of
  events happen, first to last.
\<close>

datatype Event =
    RevokeExpiredWork
  | BroadcastNewAgentModule string string string
  | GetManager
  | Deliver nat string "IWorker option"
  | Elapse int

fun step :: "Event \<Rightarrow> World \<Rightarrow> World" where
  "step RevokeExpiredWork w = snd (revokeExpiredWork w)"
| "step (BroadcastNewAgentModule moduleName workerType action) w =
     broadcastNewAgentModule moduleName workerType action w"
| "step GetManager w = snd (getManager w)"
| "step (Deliver i err ack) w =
     (if i < length (emitted w) then runCallback (callback (emitted w ! i)) err ack w else w)"
| "step (Elapse d) w = w\<lparr>clock := clock w + d\<rparr>"

fun run :: "Event list \<Rightarrow> World \<Rightarrow> World" where
  "run [] w = w"
| "run (ev # evs) w = run evs (step ev w)"


section \<open>Notions used in the statements\<close>

text \<open>
  The (taskType, worker) pairs of the expired documents, in the order the two loops of
  \<open>revokeExpiredWork\<close> visit them, and the messages \<open>revokeOne\<close> emits for them when the
  first new promise is number \<open>n\<close>.
\<close>

definition expiredPairs :: "IDocumentWork list \<Rightarrow> (IDocumentWork \<times> IWork) list" where
  "expiredPairs docs = concat (map (\<lambda>doc. map (\<lambda>wk. (doc, wk)) (workers doc)) docs)"

fun revokeMessages :: "nat \<Rightarrow> (IDocumentWork \<times> IWork) list \<Rightarrow> Emit list" where
  "revokeMessages n [] = []"
| "revokeMessages n ((doc, wk) # prs) =
     revokeMessage n (tenantId doc) (documentId doc) (workType wk) (detail wk)
       # revokeMessages (Suc n) prs"

text \<open>An event in which the transport calls an acknowledgment callback.\<close>

fun isDeliver :: "Event \<Rightarrow> bool" where
  "isDeliver (Deliver i err ack) = True"
| "isDeliver ev = False"

text \<open>The Assignment Table holds an Assignment with key \<open>k\<close>.\<close>

definition assigned :: "AssignmentKey \<Rightarrow> World \<Rightarrow> bool" where
  "assigned k w = list_ex (\<lambda>a. key a = k) (assignments (manager (foreman w)))"

text \<open>The callback is the one \<open>revokeOne\<close> made for the Assignment with key \<open>k\<close>.\<close>

fun revokeAckFor :: "AssignmentKey \<Rightarrow> Callback \<Rightarrow> bool" where
  "revokeAckFor k (RevokeAck p wd tid did wt) = (k = (tid, did, wt))"
| "revokeAckFor k (AgentAck wd moduleName) = False"

text \<open>The same world with another configured \<open>ackTimeout\<close>.\<close>

definition withAckTimeout :: "int \<Rightarrow> World \<Rightarrow> World" where
  "withAckTimeout t w = w\<lparr>foreman := (foreman w)\<lparr>ackTimeout := t\<rparr>\<rparr>"

text \<open>
  A sequence of calls of \<open>bindAssignment\<close>, each with the time of the call. A call that
  fails returns its error and leaves the State Manager as it was.
\<close>

type_synonym BindCall = "int \<times> string \<times> string \<times> string \<times> IWorkerDetail"

fun bindAll :: "BindCall list \<Rightarrow> StateManager \<Rightarrow> StateManager" where
  "bindAll [] m = m"
| "bindAll ((now, tid, did, tt, wd) # calls) m =
     bindAll calls (case bindAssignment now tid did tt wd m of Inl e \<Rightarrow> m | Inr m' \<Rightarrow> m')"

text \<open>
  An invariant of the runs that start with nothing emitted: every Assignment in the table
  is one of \<open>A\<close>, and every revoke callback belongs to a "RevokeObject" message that was
  sent to the owner of an Assignment of \<open>A\<close> with the key the callback names.
\<close>

definition ownersKnown :: "Assignment list \<Rightarrow> World \<Rightarrow> bool" where
  "ownersKnown A w =
     (set (assignments (manager (foreman w))) \<subseteq> set A
      \<and> (\<forall>em\<in>set (emitted w). \<forall>p wd tid did wt.
            callback em = RevokeAck p wd tid did wt \<longrightarrow>
              em = revokeMessage p tid did wt wd
              \<and> (\<exists>a\<in>set A. key a = (tid, did, wt) \<and> owner a = wd)))"


section \<open>A scenario\<close>

text \<open>
  The scenario of the spec's testable properties, with a second task on the same
  document: worker W1 (a server) holds ("tenantA", "doc1", "intel") since time 0, worker
  W2 (a client) holds ("tenantA", "doc1", "spell") since time 10; the document timeout is
  30000 ms, the ack timeout 5000 ms, and the clock reads 30001.
\<close>

definition worker1 :: IWorkerDetail where
  "worker1 = \<lparr>worker = \<lparr>clientId = ''W1'', kind = Server\<rparr>, socket = 1, connectedAt = 0\<rparr>"

definition worker2 :: IWorkerDetail where
  "worker2 = \<lparr>worker = \<lparr>clientId = ''W2'', kind = Client\<rparr>, socket = 2, connectedAt = 0\<rparr>"

definition scenarioConfig :: nconf where
  "scenarioConfig =
     \<lparr>tmz_timeoutMSec_worker = 60000, tmz_timeoutMSec_document = 30000,
      tmz_tasks = [''intel'', ''spell''], tmz_workerAckTimeMSec = 5000\<rparr>"

definition scenarioCalls :: "BindCall list" where
  "scenarioCalls =
     [(0, ''tenantA'', ''doc1'', ''intel'', worker1),
      (10, ''tenantA'', ''doc1'', ''spell'', worker2)]"

definition scenarioManager :: StateManager where
  "scenarioManager =
     bindAll scenarioCalls
       (registerWorker worker2 (registerWorker worker1 (manager (newBaseForeman scenarioConfig))))"

definition scenarioWorld :: World where
  "scenarioWorld =
     (newWorld scenarioConfig 30001)
       \<lparr>foreman := (newBaseForeman scenarioConfig)\<lparr>manager := scenarioManager\<rparr>\<rparr>"


section \<open>The loops in closed form\<close>

lemma revokeMessages_append:
  "revokeMessages n (xs @ ys) = revokeMessages n xs @ revokeMessages (n + length xs) ys"
  by (induction xs arbitrary: n) auto

lemma length_revokeMessages [simp]: "length (revokeMessages n prs) = length prs"
  by (induction prs arbitrary: n) auto

lemma nth_revokeMessages:
  "j < length prs \<Longrightarrow>
     revokeMessages n prs ! j =
       revokeMessage (n + j) (tenantId (fst (prs ! j))) (documentId (fst (prs ! j)))
         (workType (snd (prs ! j))) (detail (snd (prs ! j)))"
proof (induction prs arbitrary: n j)
  case Nil
  then show ?case by simp
next
  case (Cons pr prs)
  obtain doc wk where pr: "pr = (doc, wk)" by (cases pr) auto
  show ?case
  proof (cases j)
    case 0
    with pr show ?thesis by simp
  next
    case (Suc j')
    with Cons.prems have "j' < length prs" by simp
    from Cons.IH [OF this, of "Suc n"] pr Suc show ?thesis by simp
  qed
qed

lemma upt_first: "[n ..< n + Suc k] = n # [Suc n ..< Suc n + k]"
  by (subst upt_rec) simp

lemma upt_split: "[n ..< n + (a + b)] = [n ..< n + a] @ [n + a ..< n + a + b]" for n a b :: nat
  by (metis add.assoc le_add1 upt_add_eq_append)

lemma revokeWorkers_eq:
  "revokeWorkers doc wks (ps, w) =
     (ps @ [length (promises w) ..< length (promises w) + length wks],
      w\<lparr>promises := promises w @ replicate (length wks) Pending,
        emitted := emitted w @ revokeMessages (length (promises w)) (map (Pair doc) wks)\<rparr>)"
proof (induction wks arbitrary: ps w)
  case Nil
  show ?case by simp
next
  case (Cons wk wks)
  have "[length (promises w) ..< length (promises w) + length (wk # wks)]
        = length (promises w) # [Suc (length (promises w)) ..< Suc (length (promises w)) + length wks]"
    using upt_first [of "length (promises w)" "length wks"] by simp
  then show ?case
    by (simp add: revokeOne_def Let_def Cons.IH replicate_app_Cons_same)
qed

lemma expiredPairs_Cons:
  "expiredPairs (doc # docs) = map (Pair doc) (workers doc) @ expiredPairs docs"
  by (simp add: expiredPairs_def)

lemma revokeDocs_eq:
  "revokeDocs docs (ps, w) =
     (ps @ [length (promises w) ..< length (promises w) + length (expiredPairs docs)],
      w\<lparr>promises := promises w @ replicate (length (expiredPairs docs)) Pending,
        emitted := emitted w @ revokeMessages (length (promises w)) (expiredPairs docs)\<rparr>)"
proof (induction docs arbitrary: ps w)
  case Nil
  show ?case by (simp add: expiredPairs_def)
next
  case (Cons doc docs)
  show ?case
    by (simp add: revokeWorkers_eq Cons.IH expiredPairs_Cons revokeMessages_append
        replicate_add upt_split)
qed

lemma revokeExpiredWork_eq:
  "revokeExpiredWork w =
     ([length (promises w) ..< length (promises w)
          + length (expiredPairs (getExpiredDocuments (manager (foreman w)) (clock w)))],
      w\<lparr>promises := promises w
           @ replicate (length (expiredPairs (getExpiredDocuments (manager (foreman w)) (clock w)))) Pending,
        emitted := emitted w
           @ revokeMessages (length (promises w))
               (expiredPairs (getExpiredDocuments (manager (foreman w)) (clock w)))\<rparr>)"
  by (simp add: revokeExpiredWork_def Let_def revokeDocs_eq)

lemma broadcastTo_eq:
  "broadcastTo moduleName action wds w =
     w\<lparr>emitted := emitted w @ map (agentMessage moduleName action) wds\<rparr>"
  by (induction wds arbitrary: w) auto

lemma broadcastNewAgentModule_eq:
  "broadcastNewAgentModule moduleName workerType action w =
     w\<lparr>emitted := emitted w @ map (agentMessage moduleName action)
        (if workerType = ''server'' then getActiveServerWorkers (manager (foreman w))
         else getActiveClientWorkers (manager (foreman w)))\<rparr>"
  by (simp add: broadcastNewAgentModule_def Let_def broadcastTo_eq)

lemma revokeMessage_callback:
  "callback (revokeMessage p tid did wt wd) = RevokeAck p wd tid did wt"
  by (simp add: revokeMessage_def)

lemma agentMessage_callback:
  "callback (agentMessage moduleName action wd) = AgentAck wd moduleName"
  by (simp add: agentMessage_def)


section \<open>What a step leaves alone\<close>

lemma foreman_resolve [simp]: "foreman (resolve p w) = foreman w"
  by (simp add: resolve_def)

lemma emitted_resolve [simp]: "emitted (resolve p w) = emitted w"
  by (simp add: resolve_def)

lemma winston_resolve [simp]: "winston (resolve p w) = winston w"
  by (simp add: resolve_def)

lemma clock_resolve [simp]: "clock (resolve p w) = clock w"
  by (simp add: resolve_def)

lemma length_promises_resolve [simp]: "length (promises (resolve p w)) = length (promises w)"
  by (simp add: resolve_def)

lemma step_no_deliver_foreman:
  "\<not> isDeliver ev \<Longrightarrow> foreman (step ev w) = foreman w"
  by (cases ev) (simp_all add: revokeExpiredWork_eq broadcastNewAgentModule_eq getManager_def)


lemma step_no_deliver_promises:
  "\<not> isDeliver ev \<Longrightarrow> p < length (promises w) \<Longrightarrow>
     promises (step ev w) ! p = promises w ! p \<and> p < length (promises (step ev w))"
  by (cases ev)
    (simp_all add: revokeExpiredWork_eq broadcastNewAgentModule_eq getManager_def nth_append)



lemma run_no_deliver_promises:
  "\<forall>ev\<in>set evs. \<not> isDeliver ev \<Longrightarrow> p < length (promises w) \<Longrightarrow>
     promises (run evs w) ! p = promises w ! p"
proof (induction evs arbitrary: w)
  case Nil
  show ?case by simp
next
  case (Cons ev evs)
  from Cons.prems have nd: "\<not> isDeliver ev" and rest: "\<forall>e\<in>set evs. \<not> isDeliver e" by simp_all
  from step_no_deliver_promises [OF nd Cons.prems(2)]
  have s: "promises (step ev w) ! p = promises w ! p" "p < length (promises (step ev w))"
    by simp_all
  from Cons.IH [OF rest s(2)] s(1) show ?case by simp
qed

lemma run_append: "run (xs @ ys) w = run ys (run xs w)"
  by (induction xs arbitrary: w) auto

lemma nack_revoke:
  assumes "i < length (emitted w)" and "callback (emitted w ! i) = RevokeAck p wd tid did wt"
  shows "step (Deliver i err None) w = w\<lparr>winston := winston w @ [(LevelError, err)]\<rparr>"
  using assms by (simp add: winston_error_def)


section \<open>The scenario, evaluated\<close>

lemma scenarioManager_eq:
  "scenarioManager =
     \<lparr>workerTimeout = 60000, documentTimeout = 30000, taskTypes = [''intel'', ''spell''],
      registry = [worker1, worker2],
      assignments =
        [\<lparr>key = (''tenantA'', ''doc1'', ''intel''), owner = worker1,
          assignedAt = 0, lastActivityAt = 0\<rparr>,
         \<lparr>key = (''tenantA'', ''doc1'', ''spell''), owner = worker2,
          assignedAt = 10, lastActivityAt = 10\<rparr>]\<rparr>"
  by (simp add: scenarioManager_def scenarioCalls_def scenarioConfig_def newBaseForeman_def
      newStateManager_def registerWorker_def bindAssignment_def worker1_def worker2_def)

lemma scenarioWorld_eq:
  "scenarioWorld =
     \<lparr>foreman = \<lparr>manager = scenarioManager, ackTimeout = 5000\<rparr>, clock = 30001,
      emitted = [], promises = [], winston = []\<rparr>"
  by (simp add: scenarioWorld_def newWorld_def newBaseForeman_def scenarioConfig_def)

lemma scenario_expired:
  "getExpiredDocuments scenarioManager 30001 =
     [\<lparr>tenantId = ''tenantA'', documentId = ''doc1'',
       workers = [\<lparr>workType = ''intel'', detail = worker1\<rparr>,
                  \<lparr>workType = ''spell'', detail = worker2\<rparr>]\<rparr>]"
  by (simp add: scenarioManager_eq getExpiredDocuments_def expired_def docOf_def)

lemma scenario_pairs:
  "expiredPairs (getExpiredDocuments scenarioManager 30001) =
     [(\<lparr>tenantId = ''tenantA'', documentId = ''doc1'',
        workers = [\<lparr>workType = ''intel'', detail = worker1\<rparr>,
                   \<lparr>workType = ''spell'', detail = worker2\<rparr>]\<rparr>,
       \<lparr>workType = ''intel'', detail = worker1\<rparr>),
      (\<lparr>tenantId = ''tenantA'', documentId = ''doc1'',
        workers = [\<lparr>workType = ''intel'', detail = worker1\<rparr>,
                   \<lparr>workType = ''spell'', detail = worker2\<rparr>]\<rparr>,
       \<lparr>workType = ''spell'', detail = worker2\<rparr>)]"
  by (simp add: scenario_expired expiredPairs_def)

lemma scenario_sweep:
  "revokeExpiredWork scenarioWorld =
     ([0, 1],
      \<lparr>foreman = \<lparr>manager = scenarioManager, ackTimeout = 5000\<rparr>, clock = 30001,
       emitted = [revokeMessage 0 ''tenantA'' ''doc1'' ''intel'' worker1,
                  revokeMessage 1 ''tenantA'' ''doc1'' ''spell'' worker2],
       promises = [Pending, Pending], winston = []\<rparr>)"
  by (simp add: revokeExpiredWork_def scenarioWorld_eq scenario_expired revokeOne_def Let_def)


section \<open>The blob-storage stub\<close>

text \<open>
  C8 (as amended). For every input, \<open>read\<close>, \<open>write\<close>, \<open>uploadSummary\<close>,
  \<open>downloadSummary\<close> and \<open>createBlob\<close> return a rejected promise and \<open>repositoryUrl\<close>
  and \<open>getRawUrl\<close> throw; \<open>getSnapshotTree\<close>, \<open>getVersions\<close> and \<open>getContent\<close> do not
  reject: they fulfil with \<open>null\<close>, the empty list and \<open>undefined\<close>.
\<close>

theorem NullBlobStorageService_operations:
  "throws repositoryUrl \<and> throws (getRawUrl blobId)
   \<and> rejects (read blobId) \<and> rejects (write' tree parents message ref)
   \<and> rejects (uploadSummary commit) \<and> rejects (downloadSummary handle)
   \<and> rejects (createBlob file)
   \<and> getSnapshotTree version = Fulfilled JSNull
   \<and> getVersions versionId count = Fulfilled []
   \<and> getContent version' path = Fulfilled JSUndefined"
  by (simp add: throws_def rejects_def repositoryUrl_def getRawUrl_def read_def write'_def
      uploadSummary_def downloadSummary_def createBlob_def getSnapshotTree_def
      getVersions_def getContent_def)

text \<open>
  C8 as stated fails: \<open>getVersions\<close> does not reject, it succeeds with the empty list.
\<close>

theorem NullBlobStorageService_getVersions_counterexample:
  "\<not> rejects (getVersions ''v1'' 1 :: unit list promise)
   \<and> (getVersions ''v1'' 1 :: unit list promise) = Fulfilled []"
  by (simp add: rejects_def getVersions_def)


section \<open>getManager\<close>

text \<open>
  C9. \<open>getManager\<close> returns the Foreman's own State Manager and changes nothing: the
  world it leaves is the world it found, so the Worker Registry and the Assignment Table
  are as before. The manager it returns is the one the Foreman uses: \<open>revokeExpiredWork\<close>
  asks it for the expired documents, \<open>broadcastNewAgentModule\<close> asks it for the active
  workers, and the revoke callback applies \<open>revokeWork\<close> to it.
\<close>

theorem getManager_pure_read:
  "fst (getManager w) = manager (foreman w)
   \<and> snd (getManager w) = w
   \<and> registry (manager (foreman (step GetManager w))) = registry (manager (foreman w))
   \<and> assignments (manager (foreman (step GetManager w))) = assignments (manager (foreman w))
   \<and> revokeExpiredWork w
       = revokeDocs (getExpiredDocuments (fst (getManager w)) (clock w)) ([], w)
   \<and> broadcastNewAgentModule moduleName workerType action w
       = broadcastTo moduleName action
           (if workerType = ''server'' then getActiveServerWorkers (fst (getManager w))
            else getActiveClientWorkers (fst (getManager w))) w
   \<and> manager (foreman (runCallback (RevokeAck p wd tid did wt) err (Some ack) w))
       = revokeWork wd tid did wt (fst (getManager w))"
  by (simp add: getManager_def revokeExpiredWork_def broadcastNewAgentModule_def Let_def)


section \<open>broadcastNewAgentModule\<close>

text \<open>
  C10. The workers a broadcast goes to are chosen by comparing \<open>workerType\<close> with the
  string "server": when it is equal, one message goes to each active server worker; for
  every other string, one message goes to each active client worker.
\<close>

theorem broadcast_worker_kind_filter:
  "emitted (broadcastNewAgentModule moduleName workerType action w) =
     emitted w @ map (agentMessage moduleName action)
       (if workerType = ''server'' then getActiveServerWorkers (manager (foreman w))
        else getActiveClientWorkers (manager (foreman w)))"
  by (simp add: broadcastNewAgentModule_eq)

text \<open>
  In the scenario, "server" reaches W1 (the server worker) and the unrecognized kind
  "paparazzi" reaches W2 (the client worker).
\<close>

theorem broadcast_worker_kind_filter_witness:
  "emitted (broadcastNewAgentModule ''mod'' ''server'' ''add'' scenarioWorld)
     = [agentMessage ''mod'' ''add'' worker1]
   \<and> emitted (broadcastNewAgentModule ''mod'' ''paparazzi'' ''add'' scenarioWorld)
     = [agentMessage ''mod'' ''add'' worker2]"
  using broadcast_worker_kind_filter [of "''mod''" "''server''" "''add''" scenarioWorld]
    broadcast_worker_kind_filter [of "''mod''" "''paparazzi''" "''add''" scenarioWorld]
  by (simp add: scenarioWorld_eq scenarioManager_eq getActiveServerWorkers_def
      getActiveClientWorkers_def getActiveWorkers_def worker1_def worker2_def)





section \<open>revokeExpiredWork\<close>

lemma pending_tail:
  "map (\<lambda>p. (xs @ replicate k y) ! p) [length xs ..< length xs + k] = replicate k y"
  by (rule nth_equalityI) (simp_all add: nth_append)

text \<open>
  C4 (as amended). \<open>revokeExpiredWork\<close> asks \<open>getExpiredDocuments\<close> for the expired
  documents and, for every (taskType, worker) pair of every one of them, in order, emits
  exactly one "RevokeObject" message on the worker's socket, naming the worker's clientId
  and (tenantId, documentId, taskType), and returns exactly one promise, the one the
  message's callback resolves. It changes nothing else: the world it leaves is the world
  it found with the new messages after the old ones and the new promises, all pending,
  after the old ones, which keep their states. It returns at once: every promise it
  returns is still pending when the call completes.
\<close>

theorem revokeExpiredWork_one_request_per_pair:
  assumes "prs = expiredPairs (getExpiredDocuments (manager (foreman w)) (clock w))"
      and "n = length (promises w)"
  shows "emitted (snd (revokeExpiredWork w)) = emitted w @ revokeMessages n prs
     \<and> length (revokeMessages n prs) = length prs
     \<and> (\<forall>j<length prs.
          revokeMessages n prs ! j
            = \<lparr>target = socket (detail (snd (prs ! j))), event = ''RevokeObject'',
               args = [clientId (worker (detail (snd (prs ! j)))), tenantId (fst (prs ! j)),
                       documentId (fst (prs ! j)), workType (snd (prs ! j))],
               callback = RevokeAck (n + j) (detail (snd (prs ! j))) (tenantId (fst (prs ! j)))
                       (documentId (fst (prs ! j))) (workType (snd (prs ! j)))\<rparr>)
     \<and> fst (revokeExpiredWork w) = [n ..< n + length prs]
     \<and> map (\<lambda>p. promises (snd (revokeExpiredWork w)) ! p) (fst (revokeExpiredWork w))
         = replicate (length prs) Pending
     \<and> foreman (snd (revokeExpiredWork w)) = foreman w
     \<and> winston (snd (revokeExpiredWork w)) = winston w
     \<and> clock (snd (revokeExpiredWork w)) = clock w
     \<and> promises (snd (revokeExpiredWork w)) = promises w @ replicate (length prs) Pending
     \<and> (\<forall>q<n. promises (snd (revokeExpiredWork w)) ! q = promises w ! q)
     \<and> snd (revokeExpiredWork w)
         = w\<lparr>promises := promises w @ replicate (length prs) Pending,
             emitted := emitted w @ revokeMessages n prs\<rparr>"
proof -
  have eq: "revokeExpiredWork w =
      ([n ..< n + length prs],
       w\<lparr>promises := promises w @ replicate (length prs) Pending,
         emitted := emitted w @ revokeMessages n prs\<rparr>)"
    unfolding assms by (rule revokeExpiredWork_eq)
  have c1: "emitted (snd (revokeExpiredWork w)) = emitted w @ revokeMessages n prs"
    by (simp add: eq)
  have c2: "length (revokeMessages n prs) = length prs"
    by simp
  have c3: "\<forall>j<length prs.
          revokeMessages n prs ! j
            = \<lparr>target = socket (detail (snd (prs ! j))), event = ''RevokeObject'',
               args = [clientId (worker (detail (snd (prs ! j)))), tenantId (fst (prs ! j)),
                       documentId (fst (prs ! j)), workType (snd (prs ! j))],
               callback = RevokeAck (n + j) (detail (snd (prs ! j))) (tenantId (fst (prs ! j)))
                       (documentId (fst (prs ! j))) (workType (snd (prs ! j)))\<rparr>"
    by (simp add: nth_revokeMessages revokeMessage_def)
  have c4: "fst (revokeExpiredWork w) = [n ..< n + length prs]"
    by (simp add: eq)
  have c5: "map (\<lambda>p. promises (snd (revokeExpiredWork w)) ! p) (fst (revokeExpiredWork w))
         = replicate (length prs) Pending"
    unfolding eq assms(2) by (simp add: pending_tail)
  have c6: "foreman (snd (revokeExpiredWork w)) = foreman w"
    by (simp add: eq)
  have c7: "winston (snd (revokeExpiredWork w)) = winston w"
    by (simp add: eq)
  have c8: "clock (snd (revokeExpiredWork w)) = clock w"
    by (simp add: eq)
  have c9: "promises (snd (revokeExpiredWork w)) = promises w @ replicate (length prs) Pending"
    by (simp add: eq)
  have c10: "\<forall>q<n. promises (snd (revokeExpiredWork w)) ! q = promises w ! q"
    unfolding c9 assms(2) by (simp add: nth_append)
  have c11: "snd (revokeExpiredWork w)
         = w\<lparr>promises := promises w @ replicate (length prs) Pending,
             emitted := emitted w @ revokeMessages n prs\<rparr>"
    by (simp add: eq)
  show ?thesis
    by (intro conjI) (rule c1, rule c2, rule c3, rule c4, rule c5, rule c6, rule c7, rule c8,
        rule c9, rule c10, rule c11)
qed

text \<open>
  The scenario: the expired document has two pairs, so two messages go out, to W1 and
  to W2 (the second on socket 2, naming W2 and its task), and promises 0 and 1 are
  returned, both pending. A second sweep, started after W1's positive acknowledgment,
  leaves the fulfilled promise 0 and the pending promise 1 as they were.
\<close>

theorem revokeExpiredWork_one_request_per_pair_witness:
  "emitted (snd (revokeExpiredWork scenarioWorld))
     = [revokeMessage 0 ''tenantA'' ''doc1'' ''intel'' worker1,
        revokeMessage 1 ''tenantA'' ''doc1'' ''spell'' worker2]
   \<and> (1::nat) < length (expiredPairs (getExpiredDocuments scenarioManager 30001))
   \<and> revokeMessages 0 (expiredPairs (getExpiredDocuments scenarioManager 30001)) ! 1
       = \<lparr>target = 2, event = ''RevokeObject'',
          args = [''W2'', ''tenantA'', ''doc1'', ''spell''],
          callback = RevokeAck 1 worker2 ''tenantA'' ''doc1'' ''spell''\<rparr>
   \<and> fst (revokeExpiredWork scenarioWorld) = [0, 1]
   \<and> map (\<lambda>p. promises (snd (revokeExpiredWork scenarioWorld)) ! p)
        (fst (revokeExpiredWork scenarioWorld)) = [Pending, Pending]
   \<and> foreman (snd (revokeExpiredWork scenarioWorld)) = foreman scenarioWorld
   \<and> promises (snd (revokeExpiredWork scenarioWorld)) = [Pending, Pending]
   \<and> promises (run [RevokeExpiredWork, Deliver 0 ''ok'' (Some (worker worker1))] scenarioWorld)
       = [Fulfilled (), Pending]
   \<and> (0::nat) < length (promises
        (run [RevokeExpiredWork, Deliver 0 ''ok'' (Some (worker worker1))] scenarioWorld))
   \<and> promises (snd (revokeExpiredWork
        (run [RevokeExpiredWork, Deliver 0 ''ok'' (Some (worker worker1))] scenarioWorld))) ! 0
       = Fulfilled ()"
proof -
  have prs: "expiredPairs (getExpiredDocuments scenarioManager 30001)
      = expiredPairs (getExpiredDocuments (manager (foreman scenarioWorld)) (clock scenarioWorld))"
    by (simp add: scenarioWorld_eq)
  have n: "(0::nat) = length (promises scenarioWorld)"
    by (simp add: scenarioWorld_eq)
  note t = revokeExpiredWork_one_request_per_pair [OF prs n]
  have em: "emitted scenarioWorld = []"
    by (simp add: scenarioWorld_eq)
  have pr: "promises scenarioWorld = []"
    by (simp add: scenarioWorld_eq)
  have len: "length (expiredPairs (getExpiredDocuments scenarioManager 30001)) = 2"
    by (simp add: scenario_pairs)
  have j: "(1::nat) < length (expiredPairs (getExpiredDocuments scenarioManager 30001))"
    by (simp add: len)
  have c1: "emitted (snd (revokeExpiredWork scenarioWorld))
     = [revokeMessage 0 ''tenantA'' ''doc1'' ''intel'' worker1,
        revokeMessage 1 ''tenantA'' ''doc1'' ''spell'' worker2]"
    using t [THEN conjunct1] by (simp add: em scenario_pairs)
  have c3: "revokeMessages 0 (expiredPairs (getExpiredDocuments scenarioManager 30001)) ! 1
       = \<lparr>target = 2, event = ''RevokeObject'',
          args = [''W2'', ''tenantA'', ''doc1'', ''spell''],
          callback = RevokeAck 1 worker2 ''tenantA'' ''doc1'' ''spell''\<rparr>"
    using t [THEN conjunct2, THEN conjunct2, THEN conjunct1, rule_format, OF j]
    by (simp add: scenario_pairs worker2_def)
  have c4: "fst (revokeExpiredWork scenarioWorld) = [0, 1]"
    using t [THEN conjunct2, THEN conjunct2, THEN conjunct2, THEN conjunct1]
    by (simp add: len upt_rec)
  have c5: "map (\<lambda>p. promises (snd (revokeExpiredWork scenarioWorld)) ! p)
        (fst (revokeExpiredWork scenarioWorld)) = [Pending, Pending]"
    using t [THEN conjunct2, THEN conjunct2, THEN conjunct2, THEN conjunct2, THEN conjunct1]
    by (simp add: len numeral_2_eq_2)
  have c6: "foreman (snd (revokeExpiredWork scenarioWorld)) = foreman scenarioWorld"
    using t [THEN conjunct2, THEN conjunct2, THEN conjunct2, THEN conjunct2, THEN conjunct2,
        THEN conjunct1] .
  have c9: "promises (snd (revokeExpiredWork scenarioWorld)) = [Pending, Pending]"
    using t [THEN conjunct2, THEN conjunct2, THEN conjunct2, THEN conjunct2, THEN conjunct2,
        THEN conjunct2, THEN conjunct2, THEN conjunct2, THEN conjunct1]
    by (simp add: len pr numeral_2_eq_2)
  let ?w = "run [RevokeExpiredWork, Deliver 0 ''ok'' (Some (worker worker1))] scenarioWorld"
  have ps: "promises ?w = [Fulfilled (), Pending]"
    by (simp add: scenario_sweep revokeMessage_callback resolve_def)
  have q: "(0::nat) < length (promises ?w)"
    unfolding ps by simp
  have c10: "promises (snd (revokeExpiredWork ?w)) ! 0 = Fulfilled ()"
    using revokeExpiredWork_one_request_per_pair [OF refl refl, of ?w, THEN conjunct2,
        THEN conjunct2, THEN conjunct2, THEN conjunct2, THEN conjunct2, THEN conjunct2,
        THEN conjunct2, THEN conjunct2, THEN conjunct2, THEN conjunct1, rule_format, OF q]
    unfolding ps by simp
  show ?thesis
    by (intro conjI) (rule c1, rule j, rule c3, rule c4, rule c5, rule c6, rule c9, rule ps,
        rule q, rule c10)
qed

text \<open>
  C4 as stated fails: in the scenario the call has completed, returning promises 0 and
  1, and neither sub-revoke has settled.
\<close>

theorem revokeExpiredWork_returns_pending_counterexample:
  "fst (revokeExpiredWork scenarioWorld) = [0, 1]
   \<and> promises (snd (revokeExpiredWork scenarioWorld)) = [Pending, Pending]"
  by (simp add: scenario_sweep)


section \<open>The revoke protocol\<close>

lemma step_withAckTimeout:
  "step ev (withAckTimeout t w) = withAckTimeout t (step ev w)"
proof (cases ev)
  case RevokeExpiredWork
  then show ?thesis by (simp add: revokeExpiredWork_eq withAckTimeout_def)
next
  case (BroadcastNewAgentModule mn wt ac)
  then show ?thesis by (simp add: broadcastNewAgentModule_eq withAckTimeout_def)
next
  case GetManager
  then show ?thesis by (simp add: getManager_def)
next
  case (Elapse d)
  then show ?thesis by (simp add: withAckTimeout_def)
next
  case (Deliver i err ack)
  have cb: "runCallback c err ack (withAckTimeout t w) = withAckTimeout t (runCallback c err ack w)"
    for c
  proof (cases c)
    case (AgentAck wd mn)
    then show ?thesis by (cases ack) (simp_all add: winston_info_def withAckTimeout_def)
  next
    case (RevokeAck p wd tid did wt)
    then show ?thesis
      by (cases ack) (simp_all add: winston_error_def withAckTimeout_def resolve_def)
  qed
  have em: "emitted (withAckTimeout t w) = emitted w" by (simp add: withAckTimeout_def)
  from Deliver cb em show ?thesis by simp
qed

lemma run_withAckTimeout:
  "run evs (withAckTimeout t w) = withAckTimeout t (run evs w)"
  by (induction evs arbitrary: w) (simp_all add: step_withAckTimeout)

lemma ack_revoke_resolves:
  assumes "i < length (emitted w)" and "callback (emitted w ! i) = RevokeAck p wd tid did wt"
      and "p < length (promises w)" and "promises w ! p = Pending"
  shows "promises (step (Deliver i err (Some ack)) w) ! p = Fulfilled ()"
  using assms by (simp add: resolve_def)

text \<open>
  C2 (as amended). Nothing bounds the wait for an acknowledgment. The configured
  \<open>ackTimeout\<close> is stored and never consulted: whatever happens, a Foreman with another
  \<open>ackTimeout\<close> does the same. As long as no acknowledgment is delivered, every promise
  keeps its state, however much time passes, so a pending revoke stays pending. A pending
  revoke is fulfilled when its positive acknowledgment is delivered.
\<close>

theorem ack_wait_unbounded:
  "run evs (withAckTimeout t w) = withAckTimeout t (run evs w)
   \<and> ((\<forall>ev\<in>set evs. \<not> isDeliver ev) \<and> p < length (promises w) \<longrightarrow>
        promises (run evs w) ! p = promises w ! p)
   \<and> (i < length (emitted w) \<and> callback (emitted w ! i) = RevokeAck p wd tid did wt
        \<and> p < length (promises w) \<and> promises w ! p = Pending \<longrightarrow>
        promises (step (Deliver i err (Some ack)) w) ! p = Fulfilled ())"
  using run_withAckTimeout [of evs t w] run_no_deliver_promises [of evs p w]
    ack_revoke_resolves [of i w p wd tid did wt err ack]
  by blast

text \<open>
  The scenario after the sweep: 5001 ms pass (more than the ack timeout of 5000 ms) and
  promise 0 is still pending; W1's positive acknowledgment fulfils it.
\<close>

theorem ack_wait_unbounded_witness:
  "\<not> isDeliver (Elapse 5001)
   \<and> (0::nat) < length (promises (snd (revokeExpiredWork scenarioWorld)))
   \<and> promises (snd (revokeExpiredWork scenarioWorld)) ! 0 = Pending
   \<and> promises (run [Elapse 5001] (snd (revokeExpiredWork scenarioWorld))) ! 0 = Pending
   \<and> (0::nat) < length (emitted (snd (revokeExpiredWork scenarioWorld)))
   \<and> callback (emitted (snd (revokeExpiredWork scenarioWorld)) ! 0)
       = RevokeAck 0 worker1 ''tenantA'' ''doc1'' ''intel''
   \<and> promises (step (Deliver 0 '''' (Some (worker worker1)))
        (snd (revokeExpiredWork scenarioWorld))) ! 0 = Fulfilled ()"
  using ack_wait_unbounded [of "[Elapse 5001]" 0 "snd (revokeExpiredWork scenarioWorld)" 0 0
      worker1 "''tenantA''" "''doc1''" "''intel''" "''''" "worker worker1"]
  by (simp add: scenario_sweep revokeMessage_callback)

text \<open>
  C2 as stated fails: in the scenario the ack timeout is 5000 ms; 5001 ms after the
  sweep, with no acknowledgment delivered, neither revoke has settled.
\<close>

theorem ack_wait_unbounded_counterexample:
  "ackTimeout (foreman scenarioWorld) = 5000
   \<and> clock (run [RevokeExpiredWork, Elapse 5001] scenarioWorld) = clock scenarioWorld + 5001
   \<and> promises (run [RevokeExpiredWork, Elapse 5001] scenarioWorld) = [Pending, Pending]"
  by (simp add: scenario_sweep) (simp add: scenarioWorld_eq)




lemma runCallback_winston_frame:
  "foreman (runCallback c e a (w\<lparr>winston := l\<rparr>)) = foreman (runCallback c e a w)
   \<and> promises (runCallback c e a (w\<lparr>winston := l\<rparr>)) = promises (runCallback c e a w)
   \<and> emitted (runCallback c e a (w\<lparr>winston := l\<rparr>)) = emitted (runCallback c e a w)"
proof (cases c)
  case (AgentAck wd mn)
  then show ?thesis by (cases a) (simp_all add: winston_info_def)
next
  case (RevokeAck p wd tid did wt)
  then show ?thesis by (cases a) (simp_all add: winston_error_def resolve_def)
qed

lemma step_deliver_winston_frame:
  "foreman (step (Deliver j e a) (w\<lparr>winston := l\<rparr>)) = foreman (step (Deliver j e a) w)
   \<and> promises (step (Deliver j e a) (w\<lparr>winston := l\<rparr>)) = promises (step (Deliver j e a) w)
   \<and> emitted (step (Deliver j e a) (w\<lparr>winston := l\<rparr>)) = emitted (step (Deliver j e a) w)"
  using runCallback_winston_frame [where c = "callback (emitted w ! j)" and e = e and a = a
      and w = w and l = l] by simp

text \<open>
  C5 (as amended). Every (taskType, worker) pair of a sweep gets its revoke request,
  whatever becomes of the others, and the sweep returns one promise per pair, each
  pending. A negative acknowledgment is captured individually, in the error log, and
  nowhere else: it leaves the State Manager, the emitted messages and every promise, its
  own included, as they were, so the acknowledgment of a sibling has the same effect on
  them as it would have had without the failure. While no acknowledgment is delivered
  every promise keeps its state. So no failure, negative or by silence, is ever reported
  through the promises \<open>revokeExpiredWork\<close> returned.
\<close>

theorem failed_revoke_spares_siblings:
  "emitted (snd (revokeExpiredWork w))
     = emitted w @ revokeMessages (length (promises w))
         (expiredPairs (getExpiredDocuments (manager (foreman w)) (clock w)))
   \<and> fst (revokeExpiredWork w)
       = [length (promises w) ..< length (promises w)
            + length (expiredPairs (getExpiredDocuments (manager (foreman w)) (clock w)))]
   \<and> promises (snd (revokeExpiredWork w))
       = promises w @ replicate
           (length (expiredPairs (getExpiredDocuments (manager (foreman w)) (clock w)))) Pending
   \<and> (i < length (emitted w') \<and> callback (emitted w' ! i) = RevokeAck p wd tid did wt \<longrightarrow>
        winston (step (Deliver i err None) w') = winston w' @ [(LevelError, err)]
        \<and> foreman (step (Deliver i err None) w') = foreman w'
        \<and> emitted (step (Deliver i err None) w') = emitted w'
        \<and> promises (step (Deliver i err None) w') = promises w'
        \<and> foreman (step (Deliver j e a) (step (Deliver i err None) w'))
            = foreman (step (Deliver j e a) w')
        \<and> emitted (step (Deliver j e a) (step (Deliver i err None) w'))
            = emitted (step (Deliver j e a) w')
        \<and> promises (step (Deliver j e a) (step (Deliver i err None) w'))
            = promises (step (Deliver j e a) w'))
   \<and> ((\<forall>ev\<in>set evs. \<not> isDeliver ev) \<and> q < length (promises w') \<longrightarrow>
        promises (run evs w') ! q = promises w' ! q)"
proof -
  have c1: "emitted (snd (revokeExpiredWork w))
     = emitted w @ revokeMessages (length (promises w))
         (expiredPairs (getExpiredDocuments (manager (foreman w)) (clock w)))"
    by (simp add: revokeExpiredWork_eq)
  have c2: "fst (revokeExpiredWork w)
       = [length (promises w) ..< length (promises w)
            + length (expiredPairs (getExpiredDocuments (manager (foreman w)) (clock w)))]"
    by (simp add: revokeExpiredWork_eq)
  have c3: "promises (snd (revokeExpiredWork w))
       = promises w @ replicate
           (length (expiredPairs (getExpiredDocuments (manager (foreman w)) (clock w)))) Pending"
    by (simp add: revokeExpiredWork_eq)
  have c4: "winston (step (Deliver i err None) w') = winston w' @ [(LevelError, err)]
        \<and> foreman (step (Deliver i err None) w') = foreman w'
        \<and> emitted (step (Deliver i err None) w') = emitted w'
        \<and> promises (step (Deliver i err None) w') = promises w'
        \<and> foreman (step (Deliver j e a) (step (Deliver i err None) w'))
            = foreman (step (Deliver j e a) w')
        \<and> emitted (step (Deliver j e a) (step (Deliver i err None) w'))
            = emitted (step (Deliver j e a) w')
        \<and> promises (step (Deliver j e a) (step (Deliver i err None) w'))
            = promises (step (Deliver j e a) w')"
    if "i < length (emitted w')" "callback (emitted w' ! i) = RevokeAck p wd tid did wt"
    using nack_revoke [OF that, of err]
      step_deliver_winston_frame [where j = j and e = e and a = a and w = w'
        and l = "winston w' @ [(LevelError, err)]"]
    by simp
  have c5: "promises (run evs w') ! q = promises w' ! q"
    if "\<forall>ev\<in>set evs. \<not> isDeliver ev" "q < length (promises w')"
    using run_no_deliver_promises [OF that] .
  from c1 c2 c3 c4 c5 show ?thesis by blast
qed

text \<open>
  The scenario: the sweep returns promises 0 and 1, both pending. W1 declines: the
  error is logged and both promises are still pending. W2 then acknowledges: its
  Assignment is removed and its promise fulfilled, as if W1 had not declined, and W1's
  Assignment stays. And when instead 5001 ms pass in silence, promise 1 is still pending.
\<close>

theorem failed_revoke_spares_siblings_witness:
  "emitted (snd (revokeExpiredWork scenarioWorld))
     = [revokeMessage 0 ''tenantA'' ''doc1'' ''intel'' worker1,
        revokeMessage 1 ''tenantA'' ''doc1'' ''spell'' worker2]
   \<and> fst (revokeExpiredWork scenarioWorld) = [0, 1]
   \<and> promises (snd (revokeExpiredWork scenarioWorld)) = [Pending, Pending]
   \<and> (0::nat) < length (emitted (snd (revokeExpiredWork scenarioWorld)))
   \<and> callback (emitted (snd (revokeExpiredWork scenarioWorld)) ! 0)
       = RevokeAck 0 worker1 ''tenantA'' ''doc1'' ''intel''
   \<and> winston (step (Deliver 0 ''busy'' None) (snd (revokeExpiredWork scenarioWorld)))
       = [(LevelError, ''busy'')]
   \<and> promises (step (Deliver 0 ''busy'' None) (snd (revokeExpiredWork scenarioWorld)))
       = [Pending, Pending]
   \<and> promises (step (Deliver 1 ''ok'' (Some (worker worker2)))
        (step (Deliver 0 ''busy'' None) (snd (revokeExpiredWork scenarioWorld))))
       = [Pending, Fulfilled ()]
   \<and> map key (assignments (manager (foreman (step (Deliver 1 ''ok'' (Some (worker worker2)))
        (step (Deliver 0 ''busy'' None) (snd (revokeExpiredWork scenarioWorld)))))))
       = [(''tenantA'', ''doc1'', ''intel'')]
   \<and> \<not> isDeliver (Elapse 5001)
   \<and> (1::nat) < length (promises (snd (revokeExpiredWork scenarioWorld)))
   \<and> promises (run [Elapse 5001] (snd (revokeExpiredWork scenarioWorld))) ! 1 = Pending"
proof -
  let ?w = "snd (revokeExpiredWork scenarioWorld)"
  note t = failed_revoke_spares_siblings [where w = scenarioWorld and w' = ?w and i = 0
      and p = 0 and wd = worker1 and tid = "''tenantA''" and did = "''doc1''"
      and wt = "''intel''" and err = "''busy''" and j = 1 and e = "''ok''"
      and a = "Some (worker worker2)" and evs = "[Elapse 5001]" and q = 1]
  have len: "length (expiredPairs (getExpiredDocuments (manager (foreman scenarioWorld))
      (clock scenarioWorld))) = 2"
    by (simp add: scenarioWorld_eq scenario_pairs)
  have pr: "promises scenarioWorld = []"
    by (simp add: scenarioWorld_eq)
  have i: "(0::nat) < length (emitted ?w)"
    by (simp add: scenario_sweep)
  have cb: "callback (emitted ?w ! 0) = RevokeAck 0 worker1 ''tenantA'' ''doc1'' ''intel''"
    by (simp add: scenario_sweep revokeMessage_callback)
  have c1: "emitted ?w
     = [revokeMessage 0 ''tenantA'' ''doc1'' ''intel'' worker1,
        revokeMessage 1 ''tenantA'' ''doc1'' ''spell'' worker2]"
    by (simp add: scenario_sweep)
  have c2: "fst (revokeExpiredWork scenarioWorld) = [0, 1]"
    using t [THEN conjunct2, THEN conjunct1] by (simp add: len pr upt_rec)
  have c3: "promises ?w = [Pending, Pending]"
    using t [THEN conjunct2, THEN conjunct2, THEN conjunct1]
    by (simp add: len pr numeral_2_eq_2)
  note u = t [THEN conjunct2, THEN conjunct2, THEN conjunct2, THEN conjunct1, THEN mp,
      OF conjI [OF i cb]]
  have c4: "winston (step (Deliver 0 ''busy'' None) ?w) = [(LevelError, ''busy'')]"
    unfolding u [THEN conjunct1] by (simp add: scenario_sweep)
  have c5: "promises (step (Deliver 0 ''busy'' None) ?w) = [Pending, Pending]"
    unfolding u [THEN conjunct2, THEN conjunct2, THEN conjunct2, THEN conjunct1] by (rule c3)
  have after: "step (Deliver 1 ''ok'' (Some (worker worker2))) ?w
      = \<lparr>foreman = \<lparr>manager = revokeWork worker2 ''tenantA'' ''doc1'' ''spell'' scenarioManager,
                     ackTimeout = 5000\<rparr>,
         clock = 30001,
         emitted = [revokeMessage 0 ''tenantA'' ''doc1'' ''intel'' worker1,
                    revokeMessage 1 ''tenantA'' ''doc1'' ''spell'' worker2],
         promises = [Pending, Fulfilled ()], winston = []\<rparr>"
    by (simp add: scenario_sweep revokeMessage_callback resolve_def)
  have c6: "promises (step (Deliver 1 ''ok'' (Some (worker worker2)))
        (step (Deliver 0 ''busy'' None) ?w)) = [Pending, Fulfilled ()]"
    unfolding u [THEN conjunct2, THEN conjunct2, THEN conjunct2, THEN conjunct2,
        THEN conjunct2, THEN conjunct2] after by simp
  have c7: "map key (assignments (manager (foreman (step (Deliver 1 ''ok'' (Some (worker worker2)))
        (step (Deliver 0 ''busy'' None) ?w))))) = [(''tenantA'', ''doc1'', ''intel'')]"
    unfolding u [THEN conjunct2, THEN conjunct2, THEN conjunct2, THEN conjunct2,
        THEN conjunct1] after
    by (simp add: revokeWork_def removeAssignment_def scenarioManager_eq)
  have nd: "\<not> isDeliver (Elapse 5001)"
    by simp
  have nds: "\<forall>ev\<in>set [Elapse 5001]. \<not> isDeliver ev"
    by simp
  have q: "(1::nat) < length (promises ?w)"
    by (simp add: c3)
  have c8: "promises (run [Elapse 5001] ?w) ! 1 = Pending"
    using t [THEN conjunct2, THEN conjunct2, THEN conjunct2, THEN conjunct2, THEN mp,
        OF conjI [OF nds q]]
    by (simp add: c3)
  show ?thesis
    by (intro conjI) (rule c1, rule c2, rule c3, rule i, rule cb, rule c4, rule c5, rule c6,
        rule c7, rule nd, rule q, rule c8)
qed

text \<open>
  C5 as stated fails: in the scenario \<open>revokeExpiredWork\<close> returned promises 0 and 1;
  W1 then declines (a NegativeAck) and W2 does not answer for 5001 ms, more than the
  ack timeout (an AckTimeout). Both promises of the result are still pending: neither
  failure is reported in it, the log alone has W1's error.
\<close>

theorem failures_not_in_result_counterexample:
  "fst (revokeExpiredWork scenarioWorld) = [0, 1]
   \<and> promises (run [RevokeExpiredWork, Deliver 0 ''busy'' None, Elapse 5001] scenarioWorld)
       = [Pending, Pending]
   \<and> winston (run [RevokeExpiredWork, Deliver 0 ''busy'' None, Elapse 5001] scenarioWorld)
       = [(LevelError, ''busy'')]"
  by (simp add: scenario_sweep revokeMessage_callback winston_error_def)


section \<open>The revoke protocol: removal only after a positive acknowledgment\<close>

lemma assigned_revokeWork:
  "list_ex (\<lambda>a. key a = k) (assignments (revokeWork wd tid did wt m))
     = (list_ex (\<lambda>a. key a = k) (assignments m) \<and> k \<noteq> (tid, did, wt))"
  by (auto simp: revokeWork_def removeAssignment_def list_ex_iff)

text \<open>
  One step removes the Assignment with key \<open>k\<close> only if the step is the delivery of a
  positive acknowledgment to a revoke callback made for \<open>k\<close>.
\<close>

lemma step_assigned:
  assumes "assigned k w" and "\<not> assigned k (step ev w)"
  shows "\<exists>i err ack. ev = Deliver i err (Some ack) \<and> i < length (emitted w)
           \<and> revokeAckFor k (callback (emitted w ! i))"
proof (cases "isDeliver ev")
  case False
  with assms show ?thesis by (simp add: assigned_def step_no_deliver_foreman)
next
  case True
  then obtain i err ack where ev: "ev = Deliver i err ack" by (cases ev) auto
  show ?thesis
  proof (cases "i < length (emitted w)")
    case False
    with assms ev show ?thesis by simp
  next
    case i: True
    show ?thesis
    proof (cases "callback (emitted w ! i)")
      case (AgentAck wd mn)
      with assms ev i show ?thesis
        by (cases ack) (simp_all add: assigned_def winston_info_def)
    next
      case (RevokeAck p wd tid did wt)
      show ?thesis
      proof (cases ack)
        case None
        with assms ev i RevokeAck show ?thesis by (simp add: assigned_def winston_error_def)
      next
        case (Some a)
        with assms ev i RevokeAck show ?thesis
          by (simp add: assigned_def assigned_revokeWork)
      qed
    qed
  qed
qed

lemma removed_at_positive_ack:
  assumes "assigned k w" and "\<not> assigned k (run evs w)"
  shows "\<exists>pre i err ack post. evs = pre @ Deliver i err (Some ack) # post
          \<and> assigned k (run pre w)
          \<and> i < length (emitted (run pre w))
          \<and> revokeAckFor k (callback (emitted (run pre w) ! i))
          \<and> \<not> assigned k (run (pre @ [Deliver i err (Some ack)]) w)"
  using assms
proof (induction evs arbitrary: w)
  case Nil
  then show ?case by simp
next
  case (Cons ev evs)
  show ?case
  proof (cases "assigned k (step ev w)")
    case True
    with Cons.prems have "\<not> assigned k (run evs (step ev w))" by simp
    from Cons.IH [OF True this] obtain pre i err ack post where
      h: "evs = pre @ Deliver i err (Some ack) # post"
         "assigned k (run pre (step ev w))"
         "i < length (emitted (run pre (step ev w)))"
         "revokeAckFor k (callback (emitted (run pre (step ev w)) ! i))"
         "\<not> assigned k (run (pre @ [Deliver i err (Some ack)]) (step ev w))"
      by blast
    have "ev # evs = (ev # pre) @ Deliver i err (Some ack) # post" using h(1) by simp
    moreover have "assigned k (run (ev # pre) w)" using h(2) by simp
    moreover have "i < length (emitted (run (ev # pre) w))" using h(3) by simp
    moreover have "revokeAckFor k (callback (emitted (run (ev # pre) w) ! i))" using h(4) by simp
    moreover have "\<not> assigned k (run ((ev # pre) @ [Deliver i err (Some ack)]) w)"
      using h(5) by simp
    ultimately show ?thesis by blast
  next
    case False
    from step_assigned [OF Cons.prems(1) False] obtain i err ack where
      h: "ev = Deliver i err (Some ack)" "i < length (emitted w)"
         "revokeAckFor k (callback (emitted w ! i))" by blast
    have "ev # evs = [] @ Deliver i err (Some ack) # evs" using h(1) by simp
    moreover have "assigned k (run [] w)" using Cons.prems(1) by simp
    moreover have "i < length (emitted (run [] w))" using h(2) by simp
    moreover have "revokeAckFor k (callback (emitted (run [] w) ! i))" using h(3) by simp
    moreover have "\<not> assigned k (run ([] @ [Deliver i err (Some ack)]) w)"
      using False h(1) by simp
    ultimately show ?thesis by blast
  qed
qed

text \<open>The messages of a sweep go to the owners of the Assignments they name.\<close>

lemma in_revokeMessages:
  "em \<in> set (revokeMessages n prs) \<Longrightarrow>
     \<exists>p doc wk. (doc, wk) \<in> set prs
        \<and> em = revokeMessage p (tenantId doc) (documentId doc) (workType wk) (detail wk)"
proof (induction prs arbitrary: n)
  case Nil
  then show ?case by simp
next
  case (Cons pr prs)
  obtain doc wk where pr: "pr = (doc, wk)" by (cases pr) auto
  from Cons.prems pr consider
    "em = revokeMessage n (tenantId doc) (documentId doc) (workType wk) (detail wk)"
    | "em \<in> set (revokeMessages (Suc n) prs)" by auto
  then show ?case
  proof cases
    case 1
    with pr show ?thesis by auto
  next
    case 2
    from Cons.IH [OF 2] show ?thesis by auto
  qed
qed

lemma in_expiredPairs:
  assumes "(doc, wk) \<in> set (expiredPairs (getExpiredDocuments m now))"
  shows "\<exists>a\<in>set (assignments m).
           key a = (tenantId doc, documentId doc, workType wk) \<and> owner a = detail wk"
proof -
  from assms have d: "doc \<in> set (getExpiredDocuments m now)" and w: "wk \<in> set (workers doc)"
    by (auto simp: expiredPairs_def)
  from d obtain dk where doc:
    "doc = \<lparr>tenantId = fst dk, documentId = snd dk,
            workers = map (\<lambda>a. \<lparr>workType = snd (snd (key a)), detail = owner a\<rparr>)
                        (filter (\<lambda>a. docOf a = dk) (assignments m))\<rparr>"
    by (auto simp: getExpiredDocuments_def)
  with w obtain a where a: "a \<in> set (assignments m)" "docOf a = dk"
    "wk = \<lparr>workType = snd (snd (key a)), detail = owner a\<rparr>" by auto
  have "key a = (fst dk, snd dk, snd (snd (key a)))"
    using a(2) by (simp add: docOf_def prod_eq_iff)
  with a doc show ?thesis by auto
qed

lemma ownersKnown_sweep:
  assumes "ownersKnown A w"
  shows "ownersKnown A (snd (revokeExpiredWork w))"
proof -
  let ?prs = "expiredPairs (getExpiredDocuments (manager (foreman w)) (clock w))"
  have new: "em = revokeMessage p tid did wt wd \<and> (\<exists>a\<in>set A. key a = (tid, did, wt) \<and> owner a = wd)"
    if em: "em \<in> set (revokeMessages (length (promises w)) ?prs)"
      and cb: "callback em = RevokeAck p wd tid did wt" for em p wd tid did wt
  proof -
    from in_revokeMessages [OF em] obtain q doc wk where
      pr: "(doc, wk) \<in> set ?prs"
      and e: "em = revokeMessage q (tenantId doc) (documentId doc) (workType wk) (detail wk)"
      by blast
    from e cb have eq: "q = p" "detail wk = wd" "tenantId doc = tid" "documentId doc = did"
      "workType wk = wt" by (simp_all add: revokeMessage_callback)
    from in_expiredPairs [OF pr] obtain a where
      "a \<in> set (assignments (manager (foreman w)))"
      "key a = (tenantId doc, documentId doc, workType wk)" "owner a = detail wk" by blast
    with assms eq have "a \<in> set A" "key a = (tid, did, wt)" "owner a = wd"
      by (auto simp: ownersKnown_def)
    with e eq show ?thesis by auto
  qed
  from assms new show ?thesis
    unfolding ownersKnown_def revokeExpiredWork_eq by auto
qed

lemma ownersKnown_step:
  assumes "ownersKnown A w"
  shows "ownersKnown A (step ev w)"
proof (cases ev)
  case RevokeExpiredWork
  with ownersKnown_sweep [OF assms] show ?thesis by simp
next
  case (BroadcastNewAgentModule mn wt ac)
  with assms show ?thesis
    by (auto simp: ownersKnown_def broadcastNewAgentModule_eq agentMessage_callback)
next
  case GetManager
  with assms show ?thesis by (simp add: getManager_def)
next
  case (Elapse d)
  with assms show ?thesis by (simp add: ownersKnown_def)
next
  case (Deliver i err ack)
  show ?thesis
  proof (cases "i < length (emitted w)")
    case False
    with assms Deliver show ?thesis by simp
  next
    case True
    show ?thesis
    proof (cases "callback (emitted w ! i)")
      case (AgentAck wd mn)
      with assms Deliver True show ?thesis
        by (cases ack) (simp_all add: ownersKnown_def winston_info_def)
    next
      case (RevokeAck p wd tid did wt)
      show ?thesis
      proof (cases ack)
        case None
        with assms Deliver True RevokeAck show ?thesis
          by (simp add: ownersKnown_def winston_error_def)
      next
        case (Some a)
        have "set (assignments (revokeWork wd tid did wt (manager (foreman w))))
                \<subseteq> set (assignments (manager (foreman w)))"
          by (auto simp: revokeWork_def removeAssignment_def)
        with assms Deliver True RevokeAck Some show ?thesis
          by (auto simp: ownersKnown_def)
      qed
    qed
  qed
qed

lemma ownersKnown_run: "ownersKnown A w \<Longrightarrow> ownersKnown A (run evs w)"
  by (induction evs arbitrary: w) (auto intro: ownersKnown_step)

text \<open>
  C1. Whatever the Foreman is called to do and whatever the transport delivers, an
  Assignment that was in the table and is no longer there was removed by the delivery of
  a positive acknowledgment to a revoke callback made for its key: the Assignment was
  still in the table when that acknowledgment arrived, the revoke message the callback
  belongs to had been emitted before, and the Assignment is gone right after. When the
  run starts with nothing emitted and a table without duplicate keys, that message is
  the "RevokeObject" message sent to the owner of the Assignment.
\<close>

theorem remove_only_after_positive_ack:
  assumes a: "a \<in> set (assignments (manager (foreman w)))"
      and k: "key a = (tid, did, wt)"
      and gone: "\<not> assigned (key a) (run evs w)"
  shows "\<exists>pre i err ack post. evs = pre @ Deliver i err (Some ack) # post
          \<and> assigned (key a) (run pre w)
          \<and> i < length (emitted (run pre w))
          \<and> revokeAckFor (key a) (callback (emitted (run pre w) ! i))
          \<and> \<not> assigned (key a) (run (pre @ [Deliver i err (Some ack)]) w)
          \<and> (emitted w = [] \<and> distinct (map key (assignments (manager (foreman w)))) \<longrightarrow>
               (\<exists>p. emitted (run pre w) ! i = revokeMessage p tid did wt (owner a)))"
proof -
  have "assigned (key a) w" using a by (auto simp: assigned_def list_ex_iff)
  from removed_at_positive_ack [OF this gone] obtain pre i err ack post where
    h: "evs = pre @ Deliver i err (Some ack) # post"
       "assigned (key a) (run pre w)"
       "i < length (emitted (run pre w))"
       "revokeAckFor (key a) (callback (emitted (run pre w) ! i))"
       "\<not> assigned (key a) (run (pre @ [Deliver i err (Some ack)]) w)"
    by blast
  let ?em = "emitted (run pre w) ! i"
  have "\<exists>p. ?em = revokeMessage p tid did wt (owner a)"
    if fresh: "emitted w = []"
      and uniq: "distinct (map key (assignments (manager (foreman w))))"
  proof -
    have "ownersKnown (assignments (manager (foreman w))) w"
      using fresh by (simp add: ownersKnown_def)
    then have inv: "ownersKnown (assignments (manager (foreman w))) (run pre w)"
      by (rule ownersKnown_run)
    from h(4) k obtain p wd where cb: "callback ?em = RevokeAck p wd tid did wt"
      by (cases "callback ?em") auto
    have "?em \<in> set (emitted (run pre w))" using h(3) by simp
    with inv cb obtain b where b: "?em = revokeMessage p tid did wt wd"
      "b \<in> set (assignments (manager (foreman w)))" "key b = (tid, did, wt)" "owner b = wd"
      unfolding ownersKnown_def by blast
    from uniq a b(2) k b(3) have "b = a"
      by (metis distinct_map inj_on_def)
    with b show ?thesis by auto
  qed
  with h show ?thesis by blast
qed

text \<open>
  The scenario: after the sweep W2 declines and W1 acknowledges. W1's Assignment is gone
  at the end; it was removed by the third event, the positive acknowledgment delivered
  to the callback of message 0, the "RevokeObject" message sent to W1.
\<close>

theorem remove_only_after_positive_ack_witness:
  "\<lparr>key = (''tenantA'', ''doc1'', ''intel''), owner = worker1, assignedAt = 0, lastActivityAt = 0\<rparr>
      \<in> set (assignments (manager (foreman scenarioWorld)))
   \<and> \<not> assigned (''tenantA'', ''doc1'', ''intel'')
        (run [RevokeExpiredWork, Deliver 1 ''busy'' None, Deliver 0 ''ok'' (Some (worker worker1))]
           scenarioWorld)
   \<and> emitted scenarioWorld = []
   \<and> distinct (map key (assignments (manager (foreman scenarioWorld))))
   \<and> (\<exists>pre i err ack post p.
        [RevokeExpiredWork, Deliver 1 ''busy'' None, Deliver 0 ''ok'' (Some (worker worker1))]
          = pre @ Deliver i err (Some ack) # post
        \<and> assigned (''tenantA'', ''doc1'', ''intel'') (run pre scenarioWorld)
        \<and> i < length (emitted (run pre scenarioWorld))
        \<and> emitted (run pre scenarioWorld) ! i
            = revokeMessage p ''tenantA'' ''doc1'' ''intel'' worker1)"
proof -
  let ?a = "\<lparr>key = (''tenantA'', ''doc1'', ''intel''), owner = worker1,
             assignedAt = 0, lastActivityAt = 0\<rparr>"
  let ?evs = "[RevokeExpiredWork, Deliver 1 ''busy'' None, Deliver 0 ''ok'' (Some (worker worker1))]"
  have h1: "?a \<in> set (assignments (manager (foreman scenarioWorld)))"
    by (simp add: scenarioWorld_eq scenarioManager_eq)
  have h2: "key ?a = (''tenantA'', ''doc1'', ''intel'')"
    by simp
  have gone: "\<not> assigned (''tenantA'', ''doc1'', ''intel'') (run ?evs scenarioWorld)"
    by (simp add: scenario_sweep revokeMessage_callback winston_error_def assigned_def
        revokeWork_def removeAssignment_def scenarioManager_eq)
  then have h3: "\<not> assigned (key ?a) (run ?evs scenarioWorld)"
    by simp
  have h4: "emitted scenarioWorld = []"
    by (simp add: scenarioWorld_eq)
  have h5: "distinct (map key (assignments (manager (foreman scenarioWorld))))"
    by (simp add: scenarioWorld_eq scenarioManager_eq)
  from remove_only_after_positive_ack [OF h1 h2 h3] obtain pre i err ack post where
    c: "?evs = pre @ Deliver i err (Some ack) # post"
       "assigned (key ?a) (run pre scenarioWorld)"
       "i < length (emitted (run pre scenarioWorld))"
       "emitted scenarioWorld = [] \<and> distinct (map key (assignments (manager (foreman scenarioWorld))))
          \<longrightarrow> (\<exists>p. emitted (run pre scenarioWorld) ! i
                  = revokeMessage p ''tenantA'' ''doc1'' ''intel'' (owner ?a))"
    by blast
  from c(4) h4 h5 obtain p where
    p: "emitted (run pre scenarioWorld) ! i = revokeMessage p ''tenantA'' ''doc1'' ''intel'' worker1"
    by auto
  from c(2) have c2: "assigned (''tenantA'', ''doc1'', ''intel'') (run pre scenarioWorld)"
    by simp
  from c(1) c2 c(3) p have
    "\<exists>pre i err ack post p. ?evs = pre @ Deliver i err (Some ack) # post
        \<and> assigned (''tenantA'', ''doc1'', ''intel'') (run pre scenarioWorld)
        \<and> i < length (emitted (run pre scenarioWorld))
        \<and> emitted (run pre scenarioWorld) ! i
            = revokeMessage p ''tenantA'' ''doc1'' ''intel'' worker1"
    by blast
  with h1 gone h4 h5 show ?thesis by blast
qed


section \<open>bindAssignment\<close>

lemma find_None_key: "find (\<lambda>a. key a = k) xs = None \<Longrightarrow> k \<notin> set (map key xs)"
  by (auto simp: find_None_iff)

lemma key_refresh:
  "key \<circ> (\<lambda>b. if key b = k then b\<lparr>lastActivityAt := now\<rparr> else b) = key"
  by (rule ext) simp

lemma bindAssignment_distinct:
  assumes "distinct (map key (assignments m))"
      and "bindAssignment now tid did tt wd m = Inr m'"
  shows "distinct (map key (assignments m'))"
proof (cases "find (\<lambda>a. key a = (tid, did, tt)) (assignments m)")
  case None
  with assms show ?thesis
    by (auto simp: bindAssignment_def dest: find_None_key)
next
  case (Some a)
  with assms show ?thesis
    by (auto simp: bindAssignment_def key_refresh split: if_splits)
qed

lemma bindAll_distinct:
  "distinct (map key (assignments m)) \<Longrightarrow> distinct (map key (assignments (bindAll calls m)))"
proof (induction calls arbitrary: m)
  case Nil
  then show ?case by simp
next
  case (Cons c calls)
  obtain now tid did tt wd where c: "c = (now, tid, did, tt, wd)" by (cases c) auto
  show ?case
  proof (cases "bindAssignment now tid did tt wd m")
    case (Inl e)
    with Cons c show ?thesis by simp
  next
    case (Inr m')
    with Cons c bindAssignment_distinct [OF Cons.prems Inr] show ?thesis by simp
  qed
qed

lemma bindAssignment_conflict:
  assumes "distinct (map key (assignments m))"
      and "a \<in> set (assignments m)" and "key a = (tid, did, tt)"
      and "clientId (worker (owner a)) \<noteq> clientId (worker wd)"
  shows "bindAssignment now tid did tt wd m = Inl AlreadyAssigned"
proof -
  obtain b where b: "find (\<lambda>a. key a = (tid, did, tt)) (assignments m) = Some b"
    using assms(2,3) by (cases "find (\<lambda>a. key a = (tid, did, tt)) (assignments m)")
      (auto simp: find_None_iff)
  then have "b \<in> set (assignments m)" "key b = (tid, did, tt)"
    by (auto simp: find_Some_iff)
  with assms(1,2,3) have "b = a"
    by (metis distinct_map inj_on_def)
  with b assms(4) show ?thesis by (simp add: bindAssignment_def)
qed

lemma bindAssignment_success:
  assumes "\<forall>a\<in>set (assignments m). key a = (tid, did, tt) \<longrightarrow>
             clientId (worker (owner a)) = clientId (worker wd)"
  shows "\<exists>m'. bindAssignment now tid did tt wd m = Inr m'
           \<and> (\<exists>a'\<in>set (assignments m'). key a' = (tid, did, tt)
                 \<and> clientId (worker (owner a')) = clientId (worker wd)
                 \<and> lastActivityAt a' = now)"
proof (cases "find (\<lambda>a. key a = (tid, did, tt)) (assignments m)")
  case None
  then show ?thesis by (simp add: bindAssignment_def)
next
  case (Some b)
  then have b: "b \<in> set (assignments m)" "key b = (tid, did, tt)"
    by (auto simp: find_Some_iff)
  with assms have same: "clientId (worker (owner b)) = clientId (worker wd)" by blast
  let ?b' = "b\<lparr>lastActivityAt := now\<rparr>"
  have "?b' \<in> set (map (\<lambda>c. if key c = (tid, did, tt) then c\<lparr>lastActivityAt := now\<rparr> else c)
                     (assignments m))"
    using b by force
  with Some same b show ?thesis
    by (auto simp: bindAssignment_def intro!: bexI [of _ ?b'])
qed

text \<open>
  C6. Start from a State Manager with an empty Assignment Table and make any sequence of
  calls of \<open>bindAssignment\<close>. In the State Manager reached, no two Assignments have the
  same key; a further bind of a key whose Assignment is held by a different worker fails
  with AlreadyAssigned; and a bind of a key that is free or held by the same worker
  succeeds, leaves an Assignment for the key held by that worker with
  \<open>lastActivityAt = now\<close>, and keeps the keys distinct.
\<close>

theorem bindAssignment_unique:
  assumes "assignments m0 = []" and "m = bindAll calls m0"
  shows "distinct (map key (assignments m))
     \<and> (\<forall>a\<in>set (assignments m).
          key a = (tid, did, tt) \<and> clientId (worker (owner a)) \<noteq> clientId (worker wd) \<longrightarrow>
            bindAssignment now tid did tt wd m = Inl AlreadyAssigned)
     \<and> ((\<forall>a\<in>set (assignments m).
            key a = (tid, did, tt) \<longrightarrow> clientId (worker (owner a)) = clientId (worker wd)) \<longrightarrow>
          (\<exists>m'. bindAssignment now tid did tt wd m = Inr m'
             \<and> distinct (map key (assignments m'))
             \<and> (\<exists>a'\<in>set (assignments m'). key a' = (tid, did, tt)
                   \<and> clientId (worker (owner a')) = clientId (worker wd)
                   \<and> lastActivityAt a' = now)))"
proof -
  have d: "distinct (map key (assignments m))"
    unfolding assms(2) by (rule bindAll_distinct) (simp add: assms(1))
  have conflict: "\<forall>a\<in>set (assignments m).
          key a = (tid, did, tt) \<and> clientId (worker (owner a)) \<noteq> clientId (worker wd) \<longrightarrow>
            bindAssignment now tid did tt wd m = Inl AlreadyAssigned"
    using bindAssignment_conflict [OF d] by blast
  have success: "\<exists>m'. bindAssignment now tid did tt wd m = Inr m'
             \<and> distinct (map key (assignments m'))
             \<and> (\<exists>a'\<in>set (assignments m'). key a' = (tid, did, tt)
                   \<and> clientId (worker (owner a')) = clientId (worker wd)
                   \<and> lastActivityAt a' = now)"
    if same: "\<forall>a\<in>set (assignments m).
            key a = (tid, did, tt) \<longrightarrow> clientId (worker (owner a)) = clientId (worker wd)"
  proof -
    from bindAssignment_success [OF same, of now] obtain m' where
      m': "bindAssignment now tid did tt wd m = Inr m'"
        "\<exists>a'\<in>set (assignments m'). key a' = (tid, did, tt)
                   \<and> clientId (worker (owner a')) = clientId (worker wd)
                   \<and> lastActivityAt a' = now"
      by blast
    from bindAssignment_distinct [OF d m'(1)] m' show ?thesis by blast
  qed
  from d conflict success show ?thesis by blast
qed

text \<open>
  The scenario: the State Manager is reached by two binds from an empty table. Its keys
  are distinct; binding ("tenantA", "doc1", "intel"), which W1 holds, to W2 fails with
  AlreadyAssigned; binding it to W1 again at time 20 succeeds and sets
  \<open>lastActivityAt\<close> to 20.
\<close>

theorem bindAssignment_unique_witness:
  "assignments (registerWorker worker2 (registerWorker worker1
       (manager (newBaseForeman scenarioConfig)))) = []
   \<and> distinct (map key (assignments scenarioManager))
   \<and> \<lparr>key = (''tenantA'', ''doc1'', ''intel''), owner = worker1, assignedAt = 0, lastActivityAt = 0\<rparr>
        \<in> set (assignments scenarioManager)
   \<and> clientId (worker worker1) \<noteq> clientId (worker worker2)
   \<and> bindAssignment 20 ''tenantA'' ''doc1'' ''intel'' worker2 scenarioManager = Inl AlreadyAssigned
   \<and> list_all (\<lambda>a. key a = (''tenantA'', ''doc1'', ''intel'')
                    \<longrightarrow> clientId (worker (owner a)) = clientId (worker worker1))
        (assignments scenarioManager)
   \<and> (\<exists>m'. bindAssignment 20 ''tenantA'' ''doc1'' ''intel'' worker1 scenarioManager = Inr m'
         \<and> distinct (map key (assignments m'))
         \<and> (\<exists>a'\<in>set (assignments m'). key a' = (''tenantA'', ''doc1'', ''intel'')
               \<and> clientId (worker (owner a')) = clientId (worker worker1)
               \<and> lastActivityAt a' = 20))"
proof -
  let ?m0 = "registerWorker worker2 (registerWorker worker1 (manager (newBaseForeman scenarioConfig)))"
  let ?a = "\<lparr>key = (''tenantA'', ''doc1'', ''intel''), owner = worker1,
             assignedAt = 0, lastActivityAt = 0\<rparr>"
  have h1: "assignments ?m0 = []"
    by (simp add: registerWorker_def newBaseForeman_def newStateManager_def)
  have h2: "scenarioManager = bindAll scenarioCalls ?m0"
    by (simp add: scenarioManager_def)
  note t = bindAssignment_unique [OF h1 h2]
  have a: "?a \<in> set (assignments scenarioManager)"
    by (simp add: scenarioManager_eq)
  have other: "clientId (worker worker1) \<noteq> clientId (worker worker2)"
    by (simp add: worker1_def worker2_def)
  have same: "\<forall>a\<in>set (assignments scenarioManager). key a = (''tenantA'', ''doc1'', ''intel'')
                \<longrightarrow> clientId (worker (owner a)) = clientId (worker worker1)"
    by (simp add: scenarioManager_eq)
  have c1: "distinct (map key (assignments scenarioManager))"
    using t [THEN conjunct1] .
  have c2: "bindAssignment 20 ''tenantA'' ''doc1'' ''intel'' worker2 scenarioManager
              = Inl AlreadyAssigned"
    using t [where tid = "''tenantA''" and did = "''doc1''" and tt = "''intel''"
        and wd = worker2 and now = 20, THEN conjunct2, THEN conjunct1, rule_format, OF a] other
    by simp
  have c3: "\<exists>m'. bindAssignment 20 ''tenantA'' ''doc1'' ''intel'' worker1 scenarioManager = Inr m'
         \<and> distinct (map key (assignments m'))
         \<and> (\<exists>a'\<in>set (assignments m'). key a' = (''tenantA'', ''doc1'', ''intel'')
               \<and> clientId (worker (owner a')) = clientId (worker worker1)
               \<and> lastActivityAt a' = 20)"
    using t [where tid = "''tenantA''" and did = "''doc1''" and tt = "''intel''"
        and wd = worker1 and now = 20, THEN conjunct2, THEN conjunct2, THEN mp, OF same] .
  from same have same': "list_all (\<lambda>a. key a = (''tenantA'', ''doc1'', ''intel'')
                    \<longrightarrow> clientId (worker (owner a)) = clientId (worker worker1))
        (assignments scenarioManager)"
    by (simp add: list_all_iff)
  show ?thesis
    by (intro conjI) (rule h1, rule c1, rule a, rule other, rule c2, rule same', rule c3)
qed


end
